theory Spec2Isabelle
  imports Main "HOL-Library.Word" "HOL-Library.Char_ord" "HOL-Library.List_Lexorder"
begin

unbundle bit_operations_syntax

section \<open>Frame codec (protocol.hpp, protocol.cpp)\<close>

text \<open>
  A \<open>uint8_t\<close> is an 8-bit word, a \<open>std::string\<close> is a list of 8-bit characters.
  The two \<open>static_cast\<close>s between \<open>char\<close> and \<open>uint8_t\<close> keep the bit pattern.
\<close>

type_synonym byte = "8 word"

definition byte_of_char :: "char \<Rightarrow> byte" where
  "byte_of_char c = of_char c"

definition char_of_byte :: "byte \<Rightarrow> char" where
  "char_of_byte b = char_of (unat b)"

definition FRAME_MARKER :: byte where
  "FRAME_MARKER = 0x5A"

definition ESCAPE_MARKER :: byte where
  "ESCAPE_MARKER = 0x5B"

text \<open>
  Modelled from the spec: the header \<open>picojson.h\<close> is not among the sources. Its value
  type, the spec's "structured value", is the usual JSON tree; the type of numbers is
  left open. An object is a \<open>std::map\<close> from keys to values: here a list of pairs,
  searched with \<open>map_of\<close>.
\<close>

datatype 'd json =
    JNull
  | JBool bool
  | JNumber 'd
  | JString string
  | JArray "'d json list"
  | JObject "(string \<times> 'd json) list"

record 'd Response =
  raw :: string
  body :: string
  json :: "'d json option"
  version :: string
  status :: string

text \<open>\<open>calculate_crc\<close>: a 32-bit running sum of the bytes, masked to its low byte.\<close>

definition calculate_crc :: "byte list \<Rightarrow> byte" where
  "calculate_crc data =
     ucast (fold (\<lambda>b sum. sum + ucast b) data (0 :: 32 word) AND 0xFF)"

text \<open>\<open>escape_data\<close>: one pass over the input, pushing one or two bytes per input byte.\<close>

fun escape_data :: "byte list \<Rightarrow> byte list" where
  "escape_data [] = []"
| "escape_data (b # data) =
     (if b = 0x5A then [0x5B, 0x01]
      else if b = 0x5B then [0x5B, 0x02]
      else [b]) @ escape_data data"

text \<open>
  \<open>unescape_data\<close>: the loop over the index \<open>i\<close>, as recursion over the bytes from
  position \<open>i\<close> on. The test \<open>i + 1 < data.size()\<close> holds exactly when a next byte \<open>n\<close>
  exists; the extra \<open>++i\<close> drops that byte.
\<close>

fun unescape_data :: "byte list \<Rightarrow> byte list" where
  "unescape_data [] = []"
| "unescape_data [b] = [b]"
| "unescape_data (b # n # data) =
     (if b = 0x5B then
        (if n = 0x01 then 0x5A # unescape_data data
         else if n = 0x02 then 0x5B # unescape_data data
         else b # unescape_data (n # data))
      else b # unescape_data (n # data))"

text \<open>Decimal output of \<open>operator<<\<close> for an unsigned size and for an \<open>int\<close>.\<close>

definition digit_char :: "nat \<Rightarrow> char" where
  "digit_char d = char_of (48 + d)"

fun show_nat :: "nat \<Rightarrow> string" where
  "show_nat n = (if n < 10 then [digit_char n] else show_nat (n div 10) @ [digit_char (n mod 10)])"

declare show_nat.simps [simp del]

definition show_int :: "int \<Rightarrow> string" where
  "show_int i = (if i < 0 then CHR ''-'' # show_nat (nat (- i)) else show_nat (nat i))"

definition CRLF :: string where
  "CRLF = [CHR 0x0D, CHR 0x0A]"

text \<open>
  The text that \<open>build_frame\<close> streams into \<open>body\<close>. The acknowledgment number is a C++
  \<open>int\<close>: a 32-bit word read as two's complement.
\<close>

definition message_body :: "string \<Rightarrow> string \<Rightarrow> string \<Rightarrow> string \<Rightarrow> 32 word \<Rightarrow> string" where
  "message_body request_state cmd_type content vers ack_number =
     request_state @ '' '' @ cmd_type @ '' '' @ vers @ CRLF
     @ ''ContentType=json'' @ CRLF
     @ ''ContentLength='' @ show_nat (length content) @ CRLF
     @ ''AckNumber='' @ show_int (sint ack_number) @ CRLF
     @ CRLF @ content"

text \<open>The length prefix: \<open>static_cast<uint16_t>(message_body.size() + 5)\<close>.\<close>

definition total_length :: "string \<Rightarrow> 16 word" where
  "total_length msg = of_nat (length msg + 5)"

definition data_with_length :: "string \<Rightarrow> byte list" where
  "data_with_length msg =
     [ucast (drop_bit 8 (total_length msg) AND 0xFF), ucast (total_length msg AND 0xFF)]
     @ map byte_of_char msg"

definition build_frame :: "string \<Rightarrow> string \<Rightarrow> string \<Rightarrow> string \<Rightarrow> 32 word \<Rightarrow> byte list" where
  "build_frame request_state cmd_type content vers ack_number =
     (let msg = message_body request_state cmd_type content vers ack_number;
          dwl = data_with_length msg;
          crc = calculate_crc dwl;
          escaped = escape_data (dwl @ [crc])
      in [FRAME_MARKER] @ escaped @ [FRAME_MARKER])"

text \<open>\<open>std::string::find\<close>: the first position at which the pattern occurs, if any.\<close>

fun find_str :: "string \<Rightarrow> string \<Rightarrow> nat option" where
  "find_str pat [] = (if pat = [] then Some 0 else None)"
| "find_str pat (c # s) =
     (if take (length pat) (c # s) = pat then Some 0
      else map_option Suc (find_str pat s))"

text \<open>
  \<open>iss >> response.version >> response.status\<close>: each extraction skips white space
  (\<open>isspace\<close> in the C locale) and reads up to the next white space; an extraction that
  finds nothing leaves an empty string.
\<close>

definition isspace :: "char \<Rightarrow> bool" where
  "isspace c = (c = CHR '' '' \<or> c = CHR 0x09 \<or> c = CHR 0x0A \<or> c = CHR 0x0B
                \<or> c = CHR 0x0C \<or> c = CHR 0x0D)"

definition read_token :: "string \<Rightarrow> string \<times> string" where
  "read_token s =
     (let t = dropWhile isspace s
      in (takeWhile (\<lambda>c. \<not> isspace c) t, dropWhile (\<lambda>c. \<not> isspace c) t))"

text \<open>
  \<open>parse_response\<close>, in two parts. \<open>parse_message\<close> is its second half, from the
  declaration of \<open>response\<close> on: it fills a \<open>Response\<close> from the message text. The JSON
  parser of picojson is a parameter: \<open>json_parse s\<close> is the parsed value when
  \<open>picojson::parse\<close> reports no error on \<open>s\<close>.
\<close>

definition parse_message :: "(string \<Rightarrow> 'd json option) \<Rightarrow> string \<Rightarrow> 'd Response" where
  "parse_message json_parse message =
     (let response = \<lparr>raw = message, body = [], json = None, version = [], status = []\<rparr>
      in case find_str (CRLF @ CRLF) message of
           None \<Rightarrow> response
         | Some separator \<Rightarrow>
             let header_part = take separator message;
                 bdy = drop (separator + 4) message;
                 js = (if bdy \<noteq> [] then json_parse bdy else None);
                 first_line = (case find_str CRLF header_part of
                                 Some first_line_end \<Rightarrow> take first_line_end header_part
                               | None \<Rightarrow> header_part);
                 (v, rest) = read_token first_line;
                 (st, rest') = read_token rest
             in response\<lparr>body := bdy, json := js, version := v, status := st\<rparr>)"

definition parse_response :: "(string \<Rightarrow> 'd json option) \<Rightarrow> byte list \<Rightarrow> 'd Response option" where
  "parse_response json_parse data =
     (if length data < 4 then None
      else if hd data \<noteq> FRAME_MARKER \<or> last data \<noteq> FRAME_MARKER then None
      else
        let payload = unescape_data (butlast (tl data)) in
        if length payload < 3 then None
        else
          let message = map char_of_byte (butlast (drop 2 payload))
          in Some (parse_message json_parse message))"

section \<open>Device session (device.hpp, device.cpp)\<close>

record DeviceInfo =
  product_id :: string
  os :: string
  serial :: string
  app_version :: string
  firmware :: string
  hardware :: string
  attributes :: "string list"

record ScreenConfig =
  media :: "string list"
  screen_mode :: string
  ratio :: string
  play_mode :: string

text \<open>The helpers of the anonymous namespace.\<close>

definition get_string :: "'d json \<Rightarrow> string \<Rightarrow> string \<Rightarrow> string" where
  "get_string v key def =
     (case v of
        JObject obj \<Rightarrow>
          (case map_of obj key of
             Some (JString s) \<Rightarrow> s
           | _ \<Rightarrow> def)
      | _ \<Rightarrow> def)"

definition has_key :: "'d json \<Rightarrow> string \<Rightarrow> bool" where
  "has_key v key =
     (case v of
        JObject obj \<Rightarrow> (case map_of obj key of Some x \<Rightarrow> True | None \<Rightarrow> False)
      | _ \<Rightarrow> False)"

definition get_value :: "'d json \<Rightarrow> string \<Rightarrow> 'd json" where
  "get_value v key =
     (case v of
        JObject obj \<Rightarrow> (case map_of obj key of Some x \<Rightarrow> x | None \<Rightarrow> JNull)
      | _ \<Rightarrow> JNull)"

text \<open>\<open>obj[key] = value\<close> on a \<open>std::map\<close>: replace the entry or insert it in key order.\<close>

fun obj_set :: "string \<Rightarrow> 'a \<Rightarrow> (string \<times> 'a) list \<Rightarrow> (string \<times> 'a) list" where
  "obj_set k v [] = [(k, v)]"
| "obj_set k v ((k', v') # rest) =
     (if k = k' then (k, v) # rest
      else if k < k' then (k, v) # (k', v') # rest
      else (k', v') # obj_set k v rest)"

text \<open>
  What one exchange on the serial line gives back: the return value of \<open>write\<close> and the
  bytes that the timed \<open>read_response(1000)\<close> collects afterwards.
\<close>

record io_result =
  written :: int
  received :: "byte list"

text \<open>
  The members of class \<open>Device\<close>, followed by the serial line behind the descriptor,
  which is not a member: \<open>tty_reply\<close> is the line's behaviour (its answer to a frame,
  given everything written before), \<open>tty_log\<close> lists every buffer handed to \<open>write\<close>
  with the value \<open>write\<close> returned. \<open>seq_number\<close> is a C++ \<open>int\<close>; its increment is
  modelled with two's complement wrap-around. Isabelle names cannot end in an underscore,
  so the members \<open>port_\<close>, \<open>verbose_\<close>, \<open>fd_\<close> and \<open>seq_number_\<close> lose theirs.
\<close>

record Device =
  port :: string
  verbose :: bool
  fd :: int
  seq_number :: "32 word"
  tty_reply :: "(byte list \<times> int) list \<Rightarrow> byte list \<Rightarrow> io_result"
  tty_log :: "(byte list \<times> int) list"

text \<open>The constructor \<open>Device(port, verbose)\<close>, on the line \<open>line\<close>.\<close>

definition new_Device ::
  "((byte list \<times> int) list \<Rightarrow> byte list \<Rightarrow> io_result) \<Rightarrow> string \<Rightarrow> bool \<Rightarrow> Device" where
  "new_Device line p v =
     \<lparr>port = p, verbose = v, fd = - 1, seq_number = 0,
      tty_reply = line, tty_log = []\<rparr>"

text \<open>
  The operating system as \<open>find_device\<close> and \<open>connect\<close> see it: the names in \<open>/dev\<close> in
  the order the directory iterator yields them, the result of \<open>open\<close> on a path, whether
  \<open>tcgetattr\<close> and \<open>tcsetattr\<close> succeed on it, and the serial line behind it.
\<close>

record world =
  dev_entries :: "string list"
  open_result :: "string \<Rightarrow> int"
  tcgetattr_ok :: "string \<Rightarrow> bool"
  tcsetattr_ok :: "string \<Rightarrow> bool"
  line_of :: "string \<Rightarrow> (byte list \<times> int) list \<Rightarrow> byte list \<Rightarrow> io_result"

definition connect :: "world \<Rightarrow> Device \<Rightarrow> bool \<times> Device" where
  "connect w d =
     (let r = open_result w (port d) in
      if r < 0 then (False, d\<lparr>fd := r\<rparr>)
      else if \<not> tcgetattr_ok w (port d) then (False, d\<lparr>fd := - 1\<rparr>)
      else if \<not> tcsetattr_ok w (port d) then (False, d\<lparr>fd := - 1\<rparr>)
      else (True, d\<lparr>fd := r\<rparr>))"

definition disconnect :: "Device \<Rightarrow> Device" where
  "disconnect d = (if 0 \<le> fd d then d\<lparr>fd := - 1\<rparr> else d)"

text \<open>\<open>send_command\<close>; the output to \<open>std::cout\<close> in verbose mode is left out.\<close>

definition send_command ::
  "(string \<Rightarrow> 'd json option) \<Rightarrow> string \<Rightarrow> string \<Rightarrow> string \<Rightarrow> bool \<Rightarrow> Device
     \<Rightarrow> 'd Response option \<times> Device" where
  "send_command json_parse request_state cmd_type content wait_response d =
     (if fd d < 0 then (None, d)
      else
        let d1 = d\<lparr>seq_number := seq_number d + 1\<rparr>;
            frame = build_frame request_state cmd_type content ''1'' (seq_number d1);
            io = tty_reply d1 (tty_log d1) frame;
            d2 = d1\<lparr>tty_log := tty_log d1 @ [(frame, written io)]\<rparr>
        in if written io \<noteq> int (length frame) then (None, d2)
           else if \<not> wait_response then (None, d2)
           else
             let response = received io in
             if response = [] then (None, d2)
             else (parse_response json_parse response, d2))"

text \<open>The loop of \<open>handshake\<close> over the attribute array keeps the strings, in order.\<close>

fun string_elements :: "'d json list \<Rightarrow> string list" where
  "string_elements [] = []"
| "string_elements (JString s # rest) = s # string_elements rest"
| "string_elements (a # rest) = string_elements rest"

definition handshake ::
  "(string \<Rightarrow> 'd json option) \<Rightarrow> Device \<Rightarrow> DeviceInfo option \<times> Device" where
  "handshake json_parse d =
     (let (response, d') = send_command json_parse ''POST'' ''conn'' [] True d in
      case response of
        None \<Rightarrow> (None, d')
      | Some r \<Rightarrow>
          (case json r of
             None \<Rightarrow> (None, d')
           | Some j \<Rightarrow>
               let info0 = \<lparr>product_id = [], os = [], serial = [], app_version = [],
                            firmware = [], hardware = [], attributes = []\<rparr>;
                   info1 = info0\<lparr>product_id := get_string j ''productId'' ''unknown'',
                                 os := get_string j ''OS'' ''unknown'',
                                 serial := get_string j ''sn'' ''unknown''\<rparr>;
                   info2 = (if has_key j ''version'' then
                              let v = get_value j ''version'' in
                              info1\<lparr>app_version := get_string v ''app'' ''unknown'',
                                     firmware := get_string v ''firmware'' ''unknown'',
                                     hardware := get_string v ''hardware'' ''unknown''\<rparr>
                            else info1);
                   info3 = (if has_key j ''attribute'' then
                              (case get_value j ''attribute'' of
                                 JArray elems \<Rightarrow>
                                   info2\<lparr>attributes := attributes info2 @ string_elements elems\<rparr>
                               | _ \<Rightarrow> info2)
                            else info2)
               in (Some info3, d')))"

text \<open>
  \<open>set_screen_config\<close>. \<open>serialize\<close> stands for \<open>picojson::value::serialize\<close>; the
  pause between the two sends has no effect on the state.
\<close>

definition screen_config_json :: "ScreenConfig \<Rightarrow> ('d::zero) json" where
  "screen_config_json config =
     (let media_arr = map JString (media config);
          filter_obj = obj_set ''opacity'' (JNumber 0) (obj_set ''value'' (JString []) []);
          settings =
            obj_set ''filter'' (JObject filter_obj)
             (obj_set ''badges'' (JArray [])
               (obj_set ''align'' (JString ''Center'')
                 (obj_set ''color'' (JString ''#FFFFFF'')
                   (obj_set ''position'' (JString ''Top'') []))));
          cfg =
            obj_set ''sysinfoDisplay'' (JArray [])
             (obj_set ''settings'' (JObject settings)
               (obj_set ''media'' (JArray media_arr)
                 (obj_set ''playMode'' (JString (play_mode config))
                   (obj_set ''ratio'' (JString (ratio config))
                     (obj_set ''screenMode'' (JString (screen_mode config))
                       (obj_set ''id'' (JString ''Customization'')
                         (obj_set ''Type'' (JString ''Custom'') [])))))))
      in JObject cfg)"

definition set_screen_config ::
  "(string \<Rightarrow> ('d::zero) json option) \<Rightarrow> ('d json \<Rightarrow> string) \<Rightarrow> ScreenConfig \<Rightarrow> Device
     \<Rightarrow> 'd Response option \<times> Device" where
  "set_screen_config json_parse serialize config d =
     (let content = serialize (screen_config_json config);
          (first, d1) = send_command json_parse ''POST'' ''waterBlockScreenId'' content True d
      in send_command json_parse ''POST'' ''waterBlockScreenId'' content True d1)"

section \<open>Device discovery (Device::find_device)\<close>

text \<open>
  The body of the probing loop for one port: \<open>True\<close> where the loop returns the port,
  \<open>False\<close> where it goes on to the next one.
\<close>

definition try_port :: "(string \<Rightarrow> 'd json option) \<Rightarrow> world \<Rightarrow> string \<Rightarrow> bool" where
  "try_port json_parse w path =
     (let dev = new_Device (line_of w path) path False;
          (ok, dev1) = connect w dev
      in if \<not> ok then False
         else
           let (info, dev2) = handshake json_parse dev1 in
           (case info of
              None \<Rightarrow> False
            | Some i \<Rightarrow> product_id i \<noteq> [] \<and> product_id i \<noteq> ''unknown''))"

fun probe :: "(string \<Rightarrow> 'd json option) \<Rightarrow> world \<Rightarrow> string list \<Rightarrow> string option" where
  "probe json_parse w [] = None"
| "probe json_parse w (path # rest) =
     (if try_port json_parse w path then Some path else probe json_parse w rest)"

text \<open>The paths of the entries of \<open>/dev\<close> whose name starts with \<open>ttyACM\<close>.\<close>

definition candidates :: "world \<Rightarrow> string list" where
  "candidates w =
     map (\<lambda>name. ''/dev/'' @ name)
       (filter (\<lambda>name. take 6 name = ''ttyACM'') (dev_entries w))"

definition find_device :: "(string \<Rightarrow> 'd json option) \<Rightarrow> world \<Rightarrow> bool \<Rightarrow> string option" where
  "find_device json_parse w verb =
     (if candidates w = [] then None
      else probe json_parse w (sort (candidates w)))"

section \<open>Sessions and example environments\<close>

text \<open>
  A session: successive \<open>send_command\<close> calls on one \<open>Device\<close>, each with its own
  arguments. The results are listed in call order, next to the final state.
\<close>

fun session ::
  "(string \<Rightarrow> 'd json option) \<Rightarrow> (string \<times> string \<times> string \<times> bool) list \<Rightarrow> Device
     \<Rightarrow> 'd Response option list \<times> Device" where
  "session json_parse [] d = ([], d)"
| "session json_parse ((request_state, cmd_type, content, wait_response) # cmds) d =
     (let (r, d1) = send_command json_parse request_state cmd_type content wait_response d;
          (rest, d2) = session json_parse cmds d1
      in (r # rest, d2))"

text \<open>
  The header block of a frame that \<open>build_frame\<close> makes with request state \<open>1\<close>, command
  type \<open>OK\<close> and version \<open>1\<close>, as a function of the two printed numbers in it.
\<close>

definition header_ok :: "string \<Rightarrow> string \<Rightarrow> string" where
  "header_ok len_digits ack_digits =
     ''1 OK 1'' @ CRLF @ ''ContentType=json'' @ CRLF @ ''ContentLength='' @ len_digits @ CRLF
     @ ''AckNumber='' @ ack_digits"

text \<open>
  Serial lines for the examples: one that takes every frame and answers with the frame
  \<open>1 OK 1\<close> around a given body, one that takes every frame and stays silent, and one
  whose first \<open>write\<close> fails with return value -1 and that answers from then on.
\<close>

definition answering_line :: "string \<Rightarrow> (byte list \<times> int) list \<Rightarrow> byte list \<Rightarrow> io_result" where
  "answering_line reply_body log frame =
     \<lparr>written = int (length frame), received = build_frame ''1'' ''OK'' reply_body ''1'' 1\<rparr>"

definition silent_line :: "(byte list \<times> int) list \<Rightarrow> byte list \<Rightarrow> io_result" where
  "silent_line log frame = \<lparr>written = int (length frame), received = []\<rparr>"

definition flaky_line :: "(byte list \<times> int) list \<Rightarrow> byte list \<Rightarrow> io_result" where
  "flaky_line log frame =
     (if log = [] then \<lparr>written = - 1, received = []\<rparr>
      else \<lparr>written = int (length frame), received = build_frame ''1'' ''OK'' [] ''1'' 1\<rparr>)"

text \<open>A \<open>Device\<close> on \<open>/dev/ttyACM0\<close> after a \<open>connect\<close> that got descriptor 3.\<close>

definition opened :: "((byte list \<times> int) list \<Rightarrow> byte list \<Rightarrow> io_result) \<Rightarrow> Device" where
  "opened line = (new_Device line ''/dev/ttyACM0'' False)\<lparr>fd := 3\<rparr>"

text \<open>The JSON text \<open>{"k":1}\<close> (0x22 is the double quote).\<close>

definition content_k1 :: string where
  "content_k1 = [CHR ''{'', CHR 0x22, CHR ''k'', CHR 0x22, CHR '':'', CHR ''1'', CHR ''}'']"

text \<open>A JSON parser that knows one text and its value.\<close>

definition stub_parse :: "string \<Rightarrow> 'd json \<Rightarrow> string \<Rightarrow> 'd json option" where
  "stub_parse text v s = (if s = text then Some v else None)"

definition conn_twice :: "(string \<times> string \<times> string \<times> bool) list" where
  "conn_twice = [(''POST'', ''conn'', [], True), (''POST'', ''conn'', [], True)]"

text \<open>
  The text \<open>{"productId":"XR100"}\<close>, and a \<open>/dev\<close> with three ACM ports: the first cannot
  be opened, the second stays silent, the third answers with that text.
\<close>

definition xr100_text :: string where
  "xr100_text = [CHR ''{'', CHR 0x22] @ ''productId'' @ [CHR 0x22, CHR '':'', CHR 0x22]
     @ ''XR100'' @ [CHR 0x22, CHR ''}'']"

definition three_ports :: world where
  "three_ports =
     \<lparr>dev_entries = [''ttyACM2'', ''tty0'', ''ttyACM0'', ''ttyACM1''],
      open_result = (\<lambda>p. if p = ''/dev/ttyACM0'' then - 1 else 3),
      tcgetattr_ok = (\<lambda>p. True),
      tcsetattr_ok = (\<lambda>p. True),
      line_of = (\<lambda>p. if p = ''/dev/ttyACM2'' then answering_line xr100_text else silent_line)\<rparr>"

section \<open>Byte stuffing\<close>

lemma char_of_byte_of_char [simp]: "char_of_byte (byte_of_char c) = c"
proof -
  have "(of_char c :: byte) = of_nat (of_char c)"
    by (simp add: of_char_def horner_sum_eq_sum)
  then have "unat (of_char c :: byte) = of_char c"
    by (simp add: unat_of_nat)
  then show ?thesis
    by (simp add: byte_of_char_def char_of_byte_def)
qed

lemma unescape_data_plain:
  "b \<noteq> 0x5B \<Longrightarrow> unescape_data (b # data) = b # unescape_data data"
  by (cases data) simp_all

lemma unescape_data_escape_data: "unescape_data (escape_data x) = x"
  by (induction x) (simp_all add: unescape_data_plain)

text \<open>
  C1: unescaping the escaped form of any byte sequence gives the sequence back.
\<close>

theorem unescape_escape_identity: "unescape_data (escape_data x) = x"
proof (induction x)
  case Nil
  show ?case by simp
next
  case (Cons b x)
  show ?case
  proof (cases "b = 0x5A \<or> b = 0x5B")
    case True
    then show ?thesis using Cons.IH by auto
  next
    case False
    then have "unescape_data (escape_data (b # x)) = b # unescape_data (escape_data x)"
      by (simp add: unescape_data_plain)
    then show ?thesis using Cons.IH by simp
  qed
qed

lemma length_escape_data: "length x \<le> length (escape_data x)"
  by (induction x) simp_all

lemma marker_not_in_escape_data: "0x5A \<notin> set (escape_data x)"
  by (induction x) simp_all

section \<open>Frame construction\<close>

lemma build_frame_shape:
  "build_frame rs ct c v n =
     FRAME_MARKER # escape_data (data_with_length (message_body rs ct c v n)
        @ [calculate_crc (data_with_length (message_body rs ct c v n))]) @ [FRAME_MARKER]"
  by (simp add: build_frame_def Let_def)

lemma interior_build_frame:
  "butlast (tl (build_frame rs ct c v n)) =
     escape_data (data_with_length (message_body rs ct c v n)
        @ [calculate_crc (data_with_length (message_body rs ct c v n))])"
  by (simp add: build_frame_shape butlast_append)

text \<open>
  C2: a frame built by \<open>build_frame\<close> starts and ends with the marker byte 0x5A, and no
  position strictly between the first and the last holds 0x5A.
\<close>

theorem build_frame_markers:
  "hd (build_frame rs ct c v n) = 0x5A \<and> last (build_frame rs ct c v n) = 0x5A
   \<and> (\<forall>i. 0 < i \<and> i < length (build_frame rs ct c v n) - 1
          \<longrightarrow> build_frame rs ct c v n ! i \<noteq> 0x5A)"
proof -
  let ?e = "escape_data (data_with_length (message_body rs ct c v n)
        @ [calculate_crc (data_with_length (message_body rs ct c v n))])"
  have shape: "build_frame rs ct c v n = FRAME_MARKER # ?e @ [FRAME_MARKER]"
    by (rule build_frame_shape)
  have "build_frame rs ct c v n ! i \<noteq> 0x5A"
    if "0 < i" and "i < length (build_frame rs ct c v n) - 1" for i
  proof -
    from that obtain j where j: "i = Suc j" "j < length ?e"
      by (cases i) (simp_all add: shape)
    then have "build_frame rs ct c v n ! i = ?e ! j"
      by (simp add: shape nth_append)
    moreover have "?e ! j \<in> set ?e"
      using j by simp
    ultimately show ?thesis
      using marker_not_in_escape_data [of "data_with_length (message_body rs ct c v n)
        @ [calculate_crc (data_with_length (message_body rs ct c v n))]"] by metis
  qed
  then show ?thesis
    by (simp add: shape FRAME_MARKER_def)
qed

text \<open>
  The frame of command type \<open>Z\<close> (the character 0x5A itself) with sequence number 1:
  position 8 is where the escaped \<open>Z\<close> starts.
\<close>

theorem build_frame_markers_witness:
  "hd (build_frame ''POST'' ''Z'' [] ''1'' 1) = 0x5A
   \<and> last (build_frame ''POST'' ''Z'' [] ''1'' 1) = 0x5A
   \<and> (0::nat) < 8 \<and> 8 < length (build_frame ''POST'' ''Z'' [] ''1'' 1) - 1
   \<and> build_frame ''POST'' ''Z'' [] ''1'' 1 ! 8 \<noteq> 0x5A"
proof -
  have len: "(8::nat) < length (build_frame ''POST'' ''Z'' [] ''1'' 1) - 1"
    by code_simp
  show ?thesis
    using len build_frame_markers [of "''POST''" "''Z''" "[]" "''1''" 1] by simp
qed

lemma unat_low_byte:
  fixes w :: "16 word"
  shows "unat (ucast (w AND 0xFF) :: byte) = unat w mod 256"
proof -
  have "(0xFF :: 16 word) = mask 8"
    by (simp add: mask_eq_exp_minus_1)
  then have "w AND 0xFF = take_bit 8 w"
    by (simp add: take_bit_eq_mask)
  then have "unat (ucast (w AND 0xFF) :: byte) = take_bit 8 (take_bit 8 (unat w))"
    by (simp add: unsigned_ucast_eq unsigned_take_bit_eq)
  then show ?thesis
    by (simp add: take_bit_eq_mod)
qed

lemma unat_high_byte:
  fixes w :: "16 word"
  shows "unat (ucast (drop_bit 8 w AND 0xFF) :: byte) = unat w div 256"
proof -
  have "unat (ucast (drop_bit 8 w AND 0xFF) :: byte) = unat (drop_bit 8 w) mod 256"
    by (rule unat_low_byte)
  also have "unat (drop_bit 8 w) = unat w div 256"
    by (simp only: unat_drop_bit_eq) (simp add: drop_bit_eq_div)
  finally have "unat (ucast (drop_bit 8 w AND 0xFF) :: byte) = unat w div 256 mod 256" .
  moreover have "unat w < 65536"
    using unsigned_less [of w, where 'a = nat] by simp
  ultimately show ?thesis
    by simp
qed

lemma unat_big_endian:
  fixes w :: "16 word"
  shows "unat (ucast (drop_bit 8 w AND 0xFF) :: byte) * 256
           + unat (ucast (w AND 0xFF) :: byte) = unat w"
proof -
  have hi: "unat (ucast (drop_bit 8 w AND 0xFF) :: byte) = unat w div 256"
    by (rule unat_high_byte)
  have lo: "unat (ucast (w AND 0xFF) :: byte) = unat w mod 256"
    by (rule unat_low_byte)
  show ?thesis
    by (simp only: hi lo) simp
qed

lemma unat_total_length: "unat (total_length msg) = (length msg + 5) mod 65536"
  unfolding total_length_def by (simp only: unat_of_nat) simp

text \<open>
  C10: \<open>build_frame\<close> is defined on every command, whatever its size, and the two bytes
  that lead the unescaped interior of its frame are the big-endian form of the length of
  header and content plus 5, reduced modulo 65536.
\<close>

theorem build_frame_length_prefix:
  "\<exists>hi lo rest.
     unescape_data (butlast (tl (build_frame rs ct c v n))) = hi # lo # rest
     \<and> unat hi * 256 + unat lo = (length (message_body rs ct c v n) + 5) mod 65536"
proof -
  let ?msg = "message_body rs ct c v n"
  let ?w = "total_length ?msg"
  have "unescape_data (butlast (tl (build_frame rs ct c v n)))
          = data_with_length ?msg @ [calculate_crc (data_with_length ?msg)]"
    by (simp add: interior_build_frame unescape_data_escape_data)
  then have "unescape_data (butlast (tl (build_frame rs ct c v n)))
          = ucast (drop_bit 8 ?w AND 0xFF) # ucast (?w AND 0xFF)
            # (map byte_of_char ?msg @ [calculate_crc (data_with_length ?msg)])"
    by (simp add: data_with_length_def)
  moreover have "unat ?w = (length ?msg + 5) mod 65536"
    by (rule unat_total_length)
  ultimately show ?thesis
    using unat_big_endian [of ?w] by auto
qed

text \<open>
  A command of 65595 bytes (64 of header, 65531 of content): the length field holds
  65600 modulo 65536.
\<close>

theorem build_frame_length_prefix_wraps:
  "\<exists>hi lo rest.
     unescape_data (butlast (tl (build_frame ''POST'' ''x'' (replicate 65531 CHR ''a'') ''1'' 1)))
       = hi # lo # rest
     \<and> unat hi * 256 + unat lo = 64"
proof -
  have "length (message_body ''POST'' ''x'' (replicate 65531 CHR ''a'') ''1'' 1) = 65595"
    by (simp add: message_body_def CRLF_def show_int_def show_nat.simps)
  then show ?thesis
    using build_frame_length_prefix [of "''POST''" "''x''" "replicate 65531 CHR ''a''" "''1''" 1]
    by simp
qed

section \<open>Frame parsing\<close>

lemma parse_response_None_iff:
  "parse_response jp d = None \<longleftrightarrow>
      length d < 4 \<or> hd d \<noteq> FRAME_MARKER \<or> last d \<noteq> FRAME_MARKER
      \<or> length (unescape_data (butlast (tl d))) < 3"
  by (auto simp: parse_response_def Let_def)

lemma parse_response_accepted:
  "parse_response jp d \<noteq> None \<Longrightarrow>
     parse_response jp d
       = Some (parse_message jp
           (map char_of_byte (drop 2 (butlast (unescape_data (butlast (tl d)))))))"
  by (auto simp: parse_response_def Let_def butlast_drop split: if_splits)

lemma parse_message_no_separator:
  "find_str (CRLF @ CRLF) m = None \<Longrightarrow>
     parse_message jp m = \<lparr>raw = m, body = [], json = None, version = [], status = []\<rparr>"
  by (simp add: parse_message_def)

text \<open>
  C5: \<open>parse_response\<close> returns nothing exactly when the input has fewer than 4 bytes,
  or does not start or does not end with the marker byte, or its unescaped interior has
  fewer than 3 bytes. On an accepted input whose message text has no \<open>\r\n\r\n\<close>, the
  Response has empty body, version and status.
\<close>

theorem parse_response_failure_cases:
  "(parse_response jp d = None \<longleftrightarrow>
      length d < 4 \<or> hd d \<noteq> 0x5A \<or> last d \<noteq> 0x5A
      \<or> length (unescape_data (butlast (tl d))) < 3)
   \<and> (parse_response jp d \<noteq> None
        \<and> find_str (CRLF @ CRLF)
              (map char_of_byte (butlast (drop 2 (unescape_data (butlast (tl d)))))) = None
      \<longrightarrow> (\<exists>r. parse_response jp d = Some r \<and> body r = [] \<and> version r = []
                \<and> status r = []))"
proof -
  have "\<exists>r. parse_response jp d = Some r \<and> body r = [] \<and> version r = [] \<and> status r = []"
    if acc: "parse_response jp d \<noteq> None"
      and sep: "find_str (CRLF @ CRLF)
              (map char_of_byte (butlast (drop 2 (unescape_data (butlast (tl d)))))) = None"
  proof -
    have "butlast (drop 2 (unescape_data (butlast (tl d))))
            = drop 2 (butlast (unescape_data (butlast (tl d))))"
      by (simp add: butlast_drop)
    with sep show ?thesis
      by (simp add: parse_response_accepted [OF acc] parse_message_no_separator)
  qed
  then show ?thesis
    using parse_response_None_iff [of jp d] by (simp add: FRAME_MARKER_def)
qed

text \<open>
  The frame with interior \<open>00 06 41 00\<close> (message text \<open>A\<close>, no separator) is accepted
  and gives the empty fields.
\<close>

theorem parse_response_failure_cases_witness:
  "parse_response (\<lambda>s. None :: int json option) [0x5A, 0, 6, 0x41, 0, 0x5A] \<noteq> None
   \<and> find_str (CRLF @ CRLF)
        (map char_of_byte
          (butlast (drop 2 (unescape_data (butlast (tl [0x5A, 0, 6, 0x41, 0, 0x5A])))))) = None
   \<and> (\<exists>r. parse_response (\<lambda>s. None :: int json option) [0x5A, 0, 6, 0x41, 0, 0x5A] = Some r
          \<and> body r = [] \<and> version r = [] \<and> status r = [])"
proof -
  have acc: "parse_response (\<lambda>s. None :: int json option) [0x5A, 0, 6, 0x41, 0, 0x5A] \<noteq> None"
    by code_simp
  have sep: "find_str (CRLF @ CRLF)
        (map char_of_byte
          (butlast (drop 2 (unescape_data (butlast (tl [0x5A, 0, 6, 0x41, 0, 0x5A])))))) = None"
    by code_simp
  show ?thesis
    using acc sep
      parse_response_failure_cases [of "\<lambda>s. None :: int json option" "[0x5A, 0, 6, 0x41, 0, 0x5A]"]
    by blast
qed

text \<open>
  C7: the checksum byte is never checked. Two accepted inputs whose unescaped interiors
  agree up to their last byte give equal Responses; and a frame around any interior of
  at least two bytes followed by any byte \<open>c\<close> in the checksum position is accepted, with
  a Response that does not depend on \<open>c\<close>.
\<close>

theorem parse_response_ignores_checksum:
  "(parse_response jp d1 \<noteq> None \<and> parse_response jp d2 \<noteq> None
      \<and> butlast (unescape_data (butlast (tl d1))) = butlast (unescape_data (butlast (tl d2)))
    \<longrightarrow> parse_response jp d1 = parse_response jp d2)
   \<and> (2 \<le> length p
    \<longrightarrow> parse_response jp ([FRAME_MARKER] @ escape_data (p @ [c]) @ [FRAME_MARKER])
          = Some (parse_message jp (map char_of_byte (drop 2 p))))"
proof -
  have "parse_response jp ([FRAME_MARKER] @ escape_data (p @ [c]) @ [FRAME_MARKER])
          = Some (parse_message jp (map char_of_byte (drop 2 p)))"
    if p: "2 \<le> length p"
  proof -
    let ?d = "[FRAME_MARKER] @ escape_data (p @ [c]) @ [FRAME_MARKER]"
    have interior: "unescape_data (butlast (tl ?d)) = p @ [c]"
      by (simp add: butlast_append unescape_data_escape_data)
    have "length (p @ [c]) \<le> length (escape_data (p @ [c]))"
      by (rule length_escape_data)
    with p have "\<not> length ?d < 4"
      by simp
    moreover have "hd ?d = FRAME_MARKER" and "last ?d = FRAME_MARKER"
      by simp_all
    moreover have "\<not> length (p @ [c]) < 3"
      using p by simp
    ultimately have "parse_response jp ?d \<noteq> None"
      unfolding parse_response_None_iff interior by simp
    then have "parse_response jp ?d
        = Some (parse_message jp
            (map char_of_byte (drop 2 (butlast (unescape_data (butlast (tl ?d)))))))"
      by (rule parse_response_accepted)
    then show ?thesis
      unfolding interior by simp
  qed
  moreover have "parse_response jp d1 = parse_response jp d2"
    if "parse_response jp d1 \<noteq> None" and "parse_response jp d2 \<noteq> None"
      and "butlast (unescape_data (butlast (tl d1))) = butlast (unescape_data (butlast (tl d2)))"
    using that by (simp add: parse_response_accepted)
  ultimately show ?thesis
    by blast
qed

text \<open>The same interior \<open>00 06 41\<close> with checksum bytes 0x00 and 0x7F.\<close>

theorem parse_response_ignores_checksum_witness:
  "parse_response (\<lambda>s. None :: int json option) [0x5A, 0, 6, 0x41, 0, 0x5A] \<noteq> None
   \<and> parse_response (\<lambda>s. None :: int json option) [0x5A, 0, 6, 0x41, 0x7F, 0x5A] \<noteq> None
   \<and> butlast (unescape_data (butlast (tl [0x5A, 0, 6, 0x41, 0, 0x5A])))
       = butlast (unescape_data (butlast (tl [0x5A, 0, 6, 0x41, 0x7F, 0x5A])))
   \<and> parse_response (\<lambda>s. None :: int json option) [0x5A, 0, 6, 0x41, 0, 0x5A]
       = parse_response (\<lambda>s. None :: int json option) [0x5A, 0, 6, 0x41, 0x7F, 0x5A]
   \<and> (2::nat) \<le> length [0, 6, 0x41 :: byte]
   \<and> parse_response (\<lambda>s. None :: int json option)
         ([FRAME_MARKER] @ escape_data ([0, 6, 0x41] @ [0x7F]) @ [FRAME_MARKER])
       = Some (parse_message (\<lambda>s. None) (map char_of_byte (drop 2 [0, 6, 0x41])))"
proof -
  have a: "parse_response (\<lambda>s. None :: int json option) [0x5A, 0, 6, 0x41, 0, 0x5A] \<noteq> None"
    by code_simp
  have b: "parse_response (\<lambda>s. None :: int json option) [0x5A, 0, 6, 0x41, 0x7F, 0x5A] \<noteq> None"
    by code_simp
  have c: "butlast (unescape_data (butlast (tl [0x5A, 0, 6, 0x41, 0, 0x5A])))
       = butlast (unescape_data (butlast (tl [0x5A, 0, 6, 0x41, 0x7F, 0x5A])))"
    by simp
  have d: "(2::nat) \<le> length [0, 6, 0x41 :: byte]"
    by simp
  show ?thesis
    using a b c d
      parse_response_ignores_checksum [of "\<lambda>s. None :: int json option"
        "[0x5A, 0, 6, 0x41, 0, 0x5A]" "[0x5A, 0, 6, 0x41, 0x7F, 0x5A]" "[0, 6, 0x41]" "0x7F"]
    by blast
qed

section \<open>Building a frame and parsing it back\<close>

lemma byte_of_char_inverse [simp]: "map (char_of_byte \<circ> byte_of_char) s = s"
  by (induction s) simp_all

lemma parse_response_build_frame:
  "parse_response jp (build_frame rs ct c v n)
     = Some (parse_message jp (message_body rs ct c v n))"
proof -
  let ?msg = "message_body rs ct c v n"
  let ?p = "data_with_length ?msg @ [calculate_crc (data_with_length ?msg)]"
  have shape: "build_frame rs ct c v n = FRAME_MARKER # escape_data ?p @ [FRAME_MARKER]"
    by (rule build_frame_shape)
  have "3 \<le> length ?p"
    by (simp add: data_with_length_def)
  then have len: "3 \<le> length (escape_data ?p)"
    using length_escape_data [of ?p] by linarith
  have interior: "unescape_data (butlast (tl (build_frame rs ct c v n))) = ?p"
    by (simp add: interior_build_frame unescape_data_escape_data)
  have msg: "map char_of_byte (butlast (drop 2 ?p)) = ?msg"
    by (simp add: data_with_length_def)
  have "\<not> length (build_frame rs ct c v n) < 4"
    using len by (simp add: shape)
  moreover have "hd (build_frame rs ct c v n) = FRAME_MARKER"
      and "last (build_frame rs ct c v n) = FRAME_MARKER"
    by (simp_all add: shape)
  moreover have "\<not> length ?p < 3"
    by (simp add: data_with_length_def)
  ultimately show ?thesis
    unfolding parse_response_def Let_def interior msg by simp
qed

lemma find_str_skip:
  "pat \<noteq> [] \<Longrightarrow> hd pat \<notin> set xs \<Longrightarrow>
     find_str pat (xs @ ys) = map_option (\<lambda>i. length xs + i) (find_str pat ys)"
proof (induction xs)
  case Nil
  then show ?case by (simp add: option.map_ident)
next
  case (Cons x xs)
  from Cons.prems obtain p ps where pat: "pat = p # ps" and "x \<noteq> p"
    by (cases pat) auto
  then have "take (length pat) (x # xs @ ys) \<noteq> pat"
    by simp
  then show ?case
    using Cons by (simp add: option.map_comp comp_def)
qed

lemma of_char_digit_char: "d < 10 \<Longrightarrow> of_char (digit_char d) = 48 + d"
  by (simp add: digit_char_def of_char_of)

lemma show_nat_digits:
  "c \<in> set (show_nat n) \<Longrightarrow> 48 \<le> (of_char c :: nat) \<and> (of_char c :: nat) \<le> 57"
proof (induction n rule: show_nat.induct)
  case (1 n)
  show ?case
  proof (cases "n < 10")
    case True
    with "1.prems" have "c = digit_char n"
      by (simp add: show_nat.simps)
    with True show ?thesis
      by (simp add: of_char_digit_char)
  next
    case False
    with "1.prems" have "c \<in> set (show_nat (n div 10)) \<or> c = digit_char (n mod 10)"
      by (auto simp: show_nat.simps [of n])
    then show ?thesis
      using "1.IH" [OF False] by (auto simp: of_char_digit_char)
  qed
qed

lemma CR_not_in_show_nat: "CHR 0x0D \<notin> set (show_nat n)"
  using show_nat_digits [of "CHR 0x0D" n] by auto

lemma CR_not_in_show_int: "CHR 0x0D \<notin> set (show_int i)"
  by (simp add: show_int_def CR_not_in_show_nat)

lemma parse_message_separated:
  assumes "find_str (CRLF @ CRLF) (h @ CRLF @ CRLF @ b) = Some (length h)"
  shows "parse_message jp (h @ CRLF @ CRLF @ b) =
     (let first_line = (case find_str CRLF h of Some e \<Rightarrow> take e h | None \<Rightarrow> h)
      in \<lparr>raw = h @ CRLF @ CRLF @ b, body = b,
          json = (if b \<noteq> [] then jp b else None),
          version = fst (read_token first_line),
          status = fst (read_token (snd (read_token first_line)))\<rparr>)"
proof -
  have d: "drop (length h + 4) (h @ CRLF @ CRLF @ b) = b"
    by (simp add: CRLF_def)
  have t: "take (length h) (h @ CRLF @ CRLF @ b) = h"
    by simp
  show ?thesis
    unfolding parse_message_def Let_def assms option.case d t
    by (simp add: split_beta)
qed

lemma message_body_ok:
  "message_body ''1'' ''OK'' c ''1'' n
     = header_ok (show_nat (length c)) (show_int (sint n)) @ CRLF @ CRLF @ c"
  by (simp add: message_body_def header_ok_def)

lemma find_separator_ok:
  "CHR 0x0D \<notin> set L \<Longrightarrow> CHR 0x0D \<notin> set D \<Longrightarrow>
     find_str (CRLF @ CRLF) (header_ok L D @ CRLF @ CRLF @ b) = Some (length (header_ok L D))"
  by (simp add: header_ok_def CRLF_def find_str_skip)

lemma first_line_ok:
  "find_str CRLF (header_ok L D) = Some 6" "take 6 (header_ok L D) = ''1 OK 1''"
  by (simp_all add: header_ok_def CRLF_def)

lemma tokens_ok:
  "read_token ''1 OK 1'' = (''1'', '' OK 1'')" "read_token '' OK 1'' = (''OK'', '' 1'')"
  by (simp_all add: read_token_def isspace_def)

lemma parse_build_frame_ok:
  "parse_response jp (build_frame ''1'' ''OK'' c ''1'' n) =
     Some \<lparr>raw = message_body ''1'' ''OK'' c ''1'' n, body = c,
           json = (if c \<noteq> [] then jp c else None), version = ''1'', status = ''OK''\<rparr>"
proof -
  let ?L = "show_nat (length c)" and ?D = "show_int (sint n)"
  have sep: "find_str (CRLF @ CRLF) (header_ok ?L ?D @ CRLF @ CRLF @ c)
               = Some (length (header_ok ?L ?D))"
    by (rule find_separator_ok) (rule CR_not_in_show_nat, rule CR_not_in_show_int)
  have "parse_message jp (header_ok ?L ?D @ CRLF @ CRLF @ c) =
      \<lparr>raw = header_ok ?L ?D @ CRLF @ CRLF @ c, body = c,
        json = (if c \<noteq> [] then jp c else None), version = ''1'', status = ''OK''\<rparr>"
    by (simp add: parse_message_separated [OF sep] first_line_ok tokens_ok)
  then show ?thesis
    by (simp add: parse_response_build_frame message_body_ok)
qed

text \<open>
  C3: for every sequence number \<open>n\<close>, the frame built from request state \<open>1\<close>, command
  type \<open>OK\<close>, version \<open>1\<close> and content \<open>{"k":1}\<close> parses back to a Response with version
  \<open>1\<close>, status \<open>OK\<close>, the content as body and, as parsed JSON, the value \<open>v\<close> that the
  JSON parser gives for the text \<open>{"k":1}\<close>.
\<close>

theorem build_parse_roundtrip_k1:
  assumes "json_parse content_k1 = Some v"
  shows "\<exists>r. parse_response json_parse (build_frame ''1'' ''OK'' content_k1 ''1'' n) = Some r
           \<and> version r = ''1'' \<and> status r = ''OK'' \<and> body r = content_k1 \<and> json r = Some v"
proof -
  have "content_k1 \<noteq> []"
    by (simp add: content_k1_def)
  with assms show ?thesis
    by (simp add: parse_build_frame_ok)
qed

text \<open>
  With a parser that maps the text \<open>{"k":1}\<close> to the object with the one key \<open>k\<close> and the
  number 1, at sequence number 42.
\<close>

theorem build_parse_roundtrip_k1_witness:
  "stub_parse content_k1 (JObject [(''k'', JNumber (1::int))]) content_k1
     = Some (JObject [(''k'', JNumber 1)])
   \<and> (\<exists>r. parse_response (stub_parse content_k1 (JObject [(''k'', JNumber (1::int))]))
             (build_frame ''1'' ''OK'' content_k1 ''1'' 42) = Some r
          \<and> version r = ''1'' \<and> status r = ''OK'' \<and> body r = content_k1
          \<and> json r = Some (JObject [(''k'', JNumber 1)]))"
proof -
  let ?jp = "stub_parse content_k1 (JObject [(''k'', JNumber (1::int))])"
  have p: "?jp content_k1 = Some (JObject [(''k'', JNumber 1)])"
    by (simp add: stub_parse_def)
  show ?thesis
    using p build_parse_roundtrip_k1 [of ?jp "JObject [(''k'', JNumber 1)]" 42] by blast
qed

section \<open>Sending commands\<close>

lemma send_command_connected:
  assumes "0 \<le> fd d" and "send_command jp rs ct c wt d = (r, d1)"
  shows "fd d1 = fd d" and "seq_number d1 = seq_number d + 1"
    and "tty_reply d1 = tty_reply d"
    and "map fst (tty_log d1)
           = map fst (tty_log d) @ [build_frame rs ct c ''1'' (seq_number d + 1)]"
  using assms by (auto simp: send_command_def Let_def split: if_splits)

lemma send_command_disconnected:
  "fd d < 0 \<Longrightarrow> send_command jp rs ct c wt d = (None, d)"
  by (simp add: send_command_def)

lemma send_command_no_response:
  "0 \<le> fd d \<Longrightarrow>
   received (tty_reply d (tty_log d) (build_frame rs ct c ''1'' (seq_number d + 1))) = [] \<Longrightarrow>
   fst (send_command jp rs ct c wt d) = None"
  by (simp add: send_command_def Let_def)

lemma frame_nonempty: "build_frame rs ct c v n \<noteq> []"
  by (simp add: build_frame_shape)

lemma send_command_answered:
  "0 \<le> fd d \<Longrightarrow> tty_reply d = answering_line b \<Longrightarrow>
   fst (send_command jp rs ct c True d)
     = Some \<lparr>raw = message_body ''1'' ''OK'' b ''1'' 1, body = b,
             json = (if b \<noteq> [] then jp b else None), version = ''1'', status = ''OK''\<rparr>"
  by (simp add: send_command_def Let_def answering_line_def frame_nonempty parse_build_frame_ok)

lemma session_frames:
  "0 \<le> fd d \<Longrightarrow> session jp cmds d = (results, d') \<Longrightarrow>
     fd d' = fd d \<and> seq_number d' = seq_number d + of_nat (length cmds)
     \<and> map fst (tty_log d') = map fst (tty_log d)
         @ map (\<lambda>k. case cmds ! k of (rs, ct, c, wt) \<Rightarrow>
                  build_frame rs ct c ''1'' (seq_number d + of_nat (Suc k))) [0..<length cmds]"
proof (induction cmds arbitrary: d results d')
  case Nil
  then show ?case by simp
next
  case (Cons cmd cmds)
  obtain rs ct c wt where cmd: "cmd = (rs, ct, c, wt)"
    by (cases cmd) auto
  obtain r d1 where s1: "send_command jp rs ct c wt d = (r, d1)"
    by (cases "send_command jp rs ct c wt d") auto
  obtain rest d2 where s2: "session jp cmds d1 = (rest, d2)"
    by (cases "session jp cmds d1") auto
  from Cons.prems(2) have d': "d' = d2"
    by (simp add: cmd s1 s2)
  note one = send_command_connected [OF Cons.prems(1) s1]
  have "0 \<le> fd d1"
    using one(1) Cons.prems(1) by simp
  from Cons.IH [OF this s2]
  have ih: "fd d2 = fd d1" "seq_number d2 = seq_number d1 + of_nat (length cmds)"
    "map fst (tty_log d2) = map fst (tty_log d1)
         @ map (\<lambda>k. case cmds ! k of (rs, ct, c, wt) \<Rightarrow>
                  build_frame rs ct c ''1'' (seq_number d1 + of_nat (Suc k))) [0..<length cmds]"
    by simp_all
  have "[0..<length (cmd # cmds)] = 0 # map Suc [0..<length cmds]"
    by (simp add: upt_conv_Cons map_Suc_upt del: upt_Suc)
  then show ?case
    by (simp add: d' ih one cmd comp_def add.assoc del: upt_Suc)
qed

lemma sint_of_nat_small:
  "n < 2 ^ 31 \<Longrightarrow> sint (of_nat n :: 32 word) = int n"
  by (simp add: signed_of_nat signed_take_bit_int_eq_self)

text \<open>
  C6, as the code has it: the counter of a new \<open>Device\<close> is 0; a call on a \<open>Device\<close>
  that is not connected sends nothing and leaves the state as it is; and in a session
  on a connected \<open>Device\<close> that starts with counter 0, call number \<open>k + 1\<close> hands to
  \<open>write\<close> a frame with acknowledgment number \<open>k + 1\<close>, whether or not that write or
  the response succeeds, as long as the session has fewer than \<open>2^31\<close> calls.
\<close>

theorem send_command_ack_numbers:
  "seq_number (new_Device line p v) = 0
   \<and> (fd d < 0 \<longrightarrow> send_command jp rs ct c wt d = (None, d))
   \<and> (0 \<le> fd d \<and> seq_number d = 0 \<and> tty_log d = [] \<and> length cmds < 2 ^ 31
        \<longrightarrow> length (tty_log (snd (session jp cmds d))) = length cmds
            \<and> (\<forall>k < length cmds. \<exists>w. sint w = int k + 1
                   \<and> fst (tty_log (snd (session jp cmds d)) ! k)
                       = (case cmds ! k of (rs, ct, c, wt) \<Rightarrow> build_frame rs ct c ''1'' w)))"
proof -
  have "length (tty_log (snd (session jp cmds d))) = length cmds
      \<and> (\<forall>k < length cmds. \<exists>w. sint w = int k + 1
             \<and> fst (tty_log (snd (session jp cmds d)) ! k)
                 = (case cmds ! k of (rs, ct, c, wt) \<Rightarrow> build_frame rs ct c ''1'' w))"
    if conn: "0 \<le> fd d" and fresh: "seq_number d = 0" "tty_log d = []"
      and bound: "length cmds < 2 ^ 31"
  proof -
    let ?d' = "snd (session jp cmds d)"
    let ?f = "\<lambda>k. case cmds ! k of (rs, ct, c, wt) \<Rightarrow>
                  build_frame rs ct c ''1'' (of_nat (Suc k))"
    have "session jp cmds d = (fst (session jp cmds d), ?d')"
      by simp
    from session_frames [OF conn this] fresh
    have frames: "map fst (tty_log ?d') = map ?f [0..<length cmds]"
      by simp
    then have "length (map fst (tty_log ?d')) = length (map ?f [0..<length cmds])"
      by (rule arg_cong)
    then have len: "length (tty_log ?d') = length cmds"
      by simp
    have "\<exists>w. sint w = int k + 1
             \<and> fst (tty_log ?d' ! k)
                 = (case cmds ! k of (rs, ct, c, wt) \<Rightarrow> build_frame rs ct c ''1'' w)"
      if k: "k < length cmds" for k
    proof -
      have "fst (tty_log ?d' ! k) = map fst (tty_log ?d') ! k"
        using k len by simp
      also have "\<dots> = ?f k"
        using k by (simp only: frames) simp
      finally have "fst (tty_log ?d' ! k) = ?f k" .
      moreover have "sint (of_nat (Suc k) :: 32 word) = int k + 1"
        using k bound sint_of_nat_small [of "Suc k"] by simp
      ultimately show ?thesis
        by (auto split: prod.splits)
    qed
    with len show ?thesis
      by blast
  qed
  then show ?thesis
    by (simp add: send_command_disconnected new_Device_def)
qed

lemma session_flaky:
  "session (\<lambda>s. None :: int json option) conn_twice (opened flaky_line)
   = ([None, Some (parse_message (\<lambda>s. None) (message_body ''1'' ''OK'' [] ''1'' 1))],
      \<lparr>port = ''/dev/ttyACM0'', verbose = False, fd = 3, seq_number = 2,
       tty_reply = flaky_line,
       tty_log = [(build_frame ''POST'' ''conn'' [] ''1'' 1, - 1),
                  (build_frame ''POST'' ''conn'' [] ''1'' 2,
                   int (length (build_frame ''POST'' ''conn'' [] ''1'' 2)))]\<rparr>)"
  by (simp add: conn_twice_def opened_def new_Device_def send_command_def Let_def
      flaky_line_def frame_nonempty parse_response_build_frame)

text \<open>
  On the line whose first \<open>write\<close> fails, two handshake commands in a row: the first
  call returns nothing and the second returns a Response, so the second is the first
  successful call; the only frame that \<open>write\<close> took in full is its frame, and that
  frame carries \<open>AckNumber=2\<close>. And a send from counter value
  \<open>2^31 - 1\<close> (C++ leaves that increment undefined; two's complement hardware wraps)
  leaves the counter at \<open>- 2^31\<close>.
\<close>

theorem send_command_ack_numbers_counterexample:
  "fst (session (\<lambda>s. None :: int json option) conn_twice (opened flaky_line))
     = [None, Some (parse_message (\<lambda>s. None) (message_body ''1'' ''OK'' [] ''1'' 1))]
   \<and> filter (\<lambda>(frame, n). n = int (length frame))
         (tty_log (snd (session (\<lambda>s. None :: int json option) conn_twice
            (opened flaky_line))))
     = [(build_frame ''POST'' ''conn'' [] ''1'' 2,
         int (length (build_frame ''POST'' ''conn'' [] ''1'' 2)))]
   \<and> message_body ''POST'' ''conn'' [] ''1'' 2
     = ''POST conn 1'' @ CRLF @ ''ContentType=json'' @ CRLF @ ''ContentLength=0'' @ CRLF
       @ ''AckNumber=2'' @ CRLF @ CRLF
   \<and> sint (seq_number (snd (send_command (\<lambda>s. None :: int json option) ''POST'' ''conn'' []
         False ((opened flaky_line)\<lparr>seq_number := 0x7FFFFFFF\<rparr>))))
     = - 2147483648"
proof -
  have a: "message_body ''POST'' ''conn'' [] ''1'' 2
     = ''POST conn 1'' @ CRLF @ ''ContentType=json'' @ CRLF @ ''ContentLength=0'' @ CRLF
       @ ''AckNumber=2'' @ CRLF @ CRLF"
    by code_simp
  have b: "sint (seq_number (snd (send_command (\<lambda>s. None :: int json option) ''POST'' ''conn'' []
         False ((opened flaky_line)\<lparr>seq_number := 0x7FFFFFFF\<rparr>))))
     = - 2147483648"
    by (simp add: send_command_def Let_def opened_def new_Device_def)
  show ?thesis
    by (simp only: session_flaky a b) simp
qed

text \<open>
  The same two commands: on the \<open>Device\<close> before \<open>connect\<close> nothing is sent; on the opened
  one two frames are written, the second with acknowledgment number 2.
\<close>

theorem send_command_ack_numbers_witness:
  "seq_number (new_Device flaky_line ''/dev/ttyACM0'' False) = 0
   \<and> fd (new_Device flaky_line ''/dev/ttyACM0'' False) < 0
   \<and> send_command (\<lambda>s. None :: int json option) ''POST'' ''conn'' [] True
        (new_Device flaky_line ''/dev/ttyACM0'' False)
      = (None, new_Device flaky_line ''/dev/ttyACM0'' False)
   \<and> 0 \<le> fd (opened flaky_line)
   \<and> seq_number (opened flaky_line) = 0
   \<and> tty_log (opened flaky_line) = []
   \<and> length conn_twice < 2 ^ 31
   \<and> length (tty_log (snd (session (\<lambda>s. None :: int json option) conn_twice
         (opened flaky_line)))) = length conn_twice
   \<and> (\<exists>w. sint w = int 1 + 1
         \<and> fst (tty_log (snd (session (\<lambda>s. None :: int json option) conn_twice
                  (opened flaky_line))) ! 1)
            = build_frame ''POST'' ''conn'' [] ''1'' w)"
proof -
  let ?n = "new_Device flaky_line ''/dev/ttyACM0'' False"
  let ?d = "opened flaky_line"
  let ?jp = "\<lambda>s. None :: int json option"
  have off: "fd ?n < 0"
    by (simp add: new_Device_def)
  have on: "0 \<le> fd ?d" "seq_number ?d = 0" "tty_log ?d = []" "length conn_twice < 2 ^ 31"
    by (simp_all add: opened_def new_Device_def conn_twice_def)
  have k: "(1::nat) < length conn_twice"
      and cmd: "conn_twice ! 1 = (''POST'', ''conn'', [], True)"
    by (simp_all add: conn_twice_def)
  note t1 = send_command_ack_numbers [of flaky_line "''/dev/ttyACM0''" False ?n ?jp
      "''POST''" "''conn''" "[]" True conn_twice]
  note t2 = send_command_ack_numbers [of flaky_line "''/dev/ttyACM0''" False ?d ?jp
      "''POST''" "''conn''" "[]" True conn_twice]
  from t1 off have r1: "seq_number ?n = 0"
      "send_command ?jp ''POST'' ''conn'' [] True ?n = (None, ?n)"
    by blast+
  from t2 on have r2: "length (tty_log (snd (session ?jp conn_twice ?d))) = length conn_twice"
     and r3: "\<forall>k < length conn_twice. \<exists>w. sint w = int k + 1
                   \<and> fst (tty_log (snd (session ?jp conn_twice ?d)) ! k)
                       = (case conn_twice ! k of (rs, ct, c, wt) \<Rightarrow> build_frame rs ct c ''1'' w)"
    by blast+
  from r3 k have "\<exists>w. sint w = int 1 + 1
                   \<and> fst (tty_log (snd (session ?jp conn_twice ?d)) ! 1)
                       = (case conn_twice ! 1 of (rs, ct, c, wt) \<Rightarrow> build_frame rs ct c ''1'' w)"
    by blast
  then have r4: "\<exists>w. sint w = int 1 + 1
         \<and> fst (tty_log (snd (session ?jp conn_twice ?d)) ! 1)
             = build_frame ''POST'' ''conn'' [] ''1'' w"
    by (simp only: cmd prod.case)
  show ?thesis
    using off on r1 r2 r4 by blast
qed

section \<open>Handshake\<close>

lemma get_string_missing: "\<not> has_key j k \<Longrightarrow> get_string j k def = def"
  by (auto simp: get_string_def has_key_def split: json.splits option.splits)

text \<open>
  C4, as the code has it: \<open>handshake\<close> returns nothing when \<open>send_command\<close> returns
  nothing (in particular when no byte arrives), and when the Response has no parsed
  JSON. When the JSON value has none of the keys \<open>productId\<close>, \<open>OS\<close>, \<open>sn\<close>, \<open>version\<close>
  and \<open>attribute\<close>, the DeviceInfo has \<open>unknown\<close> as product id, operating system and
  serial number, the empty string as application, firmware and hardware version, and no
  attributes.
\<close>

theorem handshake_defaults:
  "(fst (send_command jp ''POST'' ''conn'' [] True d) = None \<longrightarrow> fst (handshake jp d) = None)
   \<and> (0 \<le> fd d
        \<and> received (tty_reply d (tty_log d)
             (build_frame ''POST'' ''conn'' [] ''1'' (seq_number d + 1))) = []
      \<longrightarrow> fst (handshake jp d) = None)
   \<and> (\<forall>r. fst (send_command jp ''POST'' ''conn'' [] True d) = Some r \<and> json r = None
        \<longrightarrow> fst (handshake jp d) = None)
   \<and> (\<forall>r j. fst (send_command jp ''POST'' ''conn'' [] True d) = Some r \<and> json r = Some j
          \<and> \<not> has_key j ''productId'' \<and> \<not> has_key j ''OS'' \<and> \<not> has_key j ''sn''
          \<and> \<not> has_key j ''version'' \<and> \<not> has_key j ''attribute''
        \<longrightarrow> fst (handshake jp d)
            = Some \<lparr>product_id = ''unknown'', os = ''unknown'', serial = ''unknown'',
                    app_version = [], firmware = [], hardware = [], attributes = []\<rparr>)"
proof -
  have a: "fst (handshake jp d) = None"
    if "fst (send_command jp ''POST'' ''conn'' [] True d) = None"
    using that by (cases "send_command jp ''POST'' ''conn'' [] True d") (simp add: handshake_def)
  have b: "fst (handshake jp d) = None"
    if "0 \<le> fd d" and "received (tty_reply d (tty_log d)
             (build_frame ''POST'' ''conn'' [] ''1'' (seq_number d + 1))) = []"
    using send_command_no_response [OF that] by (rule a)
  have c: "fst (handshake jp d) = None"
    if "fst (send_command jp ''POST'' ''conn'' [] True d) = Some r" and "json r = None" for r
    using that by (cases "send_command jp ''POST'' ''conn'' [] True d") (simp add: handshake_def)
  have e: "fst (handshake jp d)
            = Some \<lparr>product_id = ''unknown'', os = ''unknown'', serial = ''unknown'',
                    app_version = [], firmware = [], hardware = [], attributes = []\<rparr>"
    if "fst (send_command jp ''POST'' ''conn'' [] True d) = Some r" and "json r = Some j"
      and "\<not> has_key j ''productId''" "\<not> has_key j ''OS''" "\<not> has_key j ''sn''"
      and "\<not> has_key j ''version''" "\<not> has_key j ''attribute''" for r j
    using that
    by (cases "send_command jp ''POST'' ''conn'' [] True d")
      (simp add: handshake_def Let_def get_string_missing)
  show ?thesis
    using a b c e by blast
qed

text \<open>
  A device that answers the handshake with the body \<open>{}\<close>, parsed as the empty object:
  the three version fields of the DeviceInfo are empty strings, not \<open>unknown\<close>.
\<close>

theorem handshake_defaults_counterexample:
  "fst (handshake (stub_parse ''{}'' (JObject [] :: int json)) (opened (answering_line ''{}'')))
     = Some \<lparr>product_id = ''unknown'', os = ''unknown'', serial = ''unknown'',
             app_version = [], firmware = [], hardware = [], attributes = []\<rparr>
   \<and> ([] :: string) \<noteq> ''unknown''"
proof -
  let ?d = "opened (answering_line ''{}'')"
  let ?jp = "stub_parse ''{}'' (JObject [] :: int json)"
  have "fst (send_command ?jp ''POST'' ''conn'' [] True ?d)
     = Some \<lparr>raw = message_body ''1'' ''OK'' ''{}'' ''1'' 1, body = ''{}'',
             json = Some (JObject []), version = ''1'', status = ''OK''\<rparr>"
    by (simp add: send_command_answered opened_def new_Device_def stub_parse_def)
  then show ?thesis
    by (cases "send_command ?jp ''POST'' ''conn'' [] True ?d")
      (simp add: handshake_def Let_def has_key_def get_string_def)
qed

text \<open>
  The four cases on \<open>/dev/ttyACM0\<close>: before \<open>connect\<close>; opened on a silent line; opened
  on a line that answers with the body \<open>oops\<close>, which the parser refuses; and opened on
  a line that answers with the body \<open>{}\<close>.
\<close>

theorem handshake_defaults_witness:
  "fst (send_command (stub_parse ''{}'' (JObject [] :: int json)) ''POST'' ''conn'' [] True
         (new_Device silent_line ''/dev/ttyACM0'' False)) = None
   \<and> fst (handshake (stub_parse ''{}'' (JObject [] :: int json))
         (new_Device silent_line ''/dev/ttyACM0'' False)) = None
   \<and> 0 \<le> fd (opened silent_line)
   \<and> received (tty_reply (opened silent_line) (tty_log (opened silent_line))
        (build_frame ''POST'' ''conn'' [] ''1'' (seq_number (opened silent_line) + 1))) = []
   \<and> fst (handshake (stub_parse ''{}'' (JObject [] :: int json)) (opened silent_line)) = None
   \<and> fst (send_command (stub_parse ''{}'' (JObject [] :: int json)) ''POST'' ''conn'' [] True
         (opened (answering_line ''oops'')))
     = Some \<lparr>raw = message_body ''1'' ''OK'' ''oops'' ''1'' 1, body = ''oops'',
             json = None, version = ''1'', status = ''OK''\<rparr>
   \<and> fst (handshake (stub_parse ''{}'' (JObject [] :: int json))
         (opened (answering_line ''oops''))) = None
   \<and> fst (send_command (stub_parse ''{}'' (JObject [] :: int json)) ''POST'' ''conn'' [] True
         (opened (answering_line ''{}'')))
     = Some \<lparr>raw = message_body ''1'' ''OK'' ''{}'' ''1'' 1, body = ''{}'',
             json = Some (JObject []), version = ''1'', status = ''OK''\<rparr>
   \<and> \<not> has_key (JObject [] :: int json) ''productId''
   \<and> \<not> has_key (JObject [] :: int json) ''OS''
   \<and> \<not> has_key (JObject [] :: int json) ''sn''
   \<and> \<not> has_key (JObject [] :: int json) ''version''
   \<and> \<not> has_key (JObject [] :: int json) ''attribute''
   \<and> fst (handshake (stub_parse ''{}'' (JObject [] :: int json)) (opened (answering_line ''{}'')))
     = Some \<lparr>product_id = ''unknown'', os = ''unknown'', serial = ''unknown'',
             app_version = [], firmware = [], hardware = [], attributes = []\<rparr>"
proof -
  let ?jp = "stub_parse ''{}'' (JObject [] :: int json)"
  let ?n = "new_Device silent_line ''/dev/ttyACM0'' False"
  let ?r3 = "\<lparr>raw = message_body ''1'' ''OK'' ''oops'' ''1'' 1, body = ''oops'',
             json = None :: int json option, version = ''1'', status = ''OK''\<rparr>"
  let ?r4 = "\<lparr>raw = message_body ''1'' ''OK'' ''{}'' ''1'' 1, body = ''{}'',
             json = Some (JObject [] :: int json), version = ''1'', status = ''OK''\<rparr>"
  have h1: "fst (send_command ?jp ''POST'' ''conn'' [] True ?n) = None"
    by (simp add: send_command_disconnected new_Device_def)
  have h2: "0 \<le> fd (opened silent_line)"
    "received (tty_reply (opened silent_line) (tty_log (opened silent_line))
        (build_frame ''POST'' ''conn'' [] ''1'' (seq_number (opened silent_line) + 1))) = []"
    by (simp_all add: opened_def new_Device_def silent_line_def)
  have h3: "fst (send_command ?jp ''POST'' ''conn'' [] True (opened (answering_line ''oops'')))
      = Some ?r3"
    by (simp add: send_command_answered opened_def new_Device_def stub_parse_def)
  have h4: "fst (send_command ?jp ''POST'' ''conn'' [] True (opened (answering_line ''{}'')))
      = Some ?r4"
    by (simp add: send_command_answered opened_def new_Device_def stub_parse_def)
  have js: "json ?r3 = None" "json ?r4 = Some (JObject [])"
    by simp_all
  have keys: "\<not> has_key (JObject [] :: int json) k" for k
    by (simp add: has_key_def)
  have c1: "fst (handshake ?jp ?n) = None"
    using h1 handshake_defaults [of ?jp ?n] by blast
  have c2: "fst (handshake ?jp (opened silent_line)) = None"
    using h2 handshake_defaults [of ?jp "opened silent_line"] by blast
  have c3: "fst (handshake ?jp (opened (answering_line ''oops''))) = None"
    using h3 js(1) handshake_defaults [of ?jp "opened (answering_line ''oops'')"] by blast
  have c4: "fst (handshake ?jp (opened (answering_line ''{}'')))
     = Some \<lparr>product_id = ''unknown'', os = ''unknown'', serial = ''unknown'',
             app_version = [], firmware = [], hardware = [], attributes = []\<rparr>"
    using h4 js(2) keys handshake_defaults [of ?jp "opened (answering_line ''{}'')"] by blast
  show ?thesis
    using h1 h2 h3 h4 keys c1 c2 c3 c4 by blast
qed

section \<open>Screen configuration\<close>

text \<open>
  C9: \<open>set_screen_config\<close> is two \<open>send_command\<close> calls in a row, the second on the
  state the first leaves, both with request state \<open>POST\<close>, command type
  \<open>waterBlockScreenId\<close> and the same serialized configuration, and its result is the
  result of the second call. On a connected \<open>Device\<close> exactly two frames are handed to
  \<open>write\<close>, with that content and consecutive acknowledgment numbers; on a \<open>Device\<close> that
  is not connected nothing is sent and nothing returned.
\<close>

theorem set_screen_config_sends_twice:
  "set_screen_config jp ser cfg d
     = send_command jp ''POST'' ''waterBlockScreenId'' (ser (screen_config_json cfg)) True
         (snd (send_command jp ''POST'' ''waterBlockScreenId'' (ser (screen_config_json cfg))
                 True d))
   \<and> (0 \<le> fd d \<longrightarrow>
        map fst (tty_log (snd (set_screen_config jp ser cfg d)))
          = map fst (tty_log d)
            @ [build_frame ''POST'' ''waterBlockScreenId'' (ser (screen_config_json cfg)) ''1''
                 (seq_number d + 1),
               build_frame ''POST'' ''waterBlockScreenId'' (ser (screen_config_json cfg)) ''1''
                 (seq_number d + 2)])
   \<and> (fd d < 0 \<longrightarrow> set_screen_config jp ser cfg d = (None, d))"
proof -
  let ?c = "ser (screen_config_json cfg)"
  let ?s1 = "send_command jp ''POST'' ''waterBlockScreenId'' ?c True d"
  let ?s2 = "send_command jp ''POST'' ''waterBlockScreenId'' ?c True (snd ?s1)"
  have eq: "set_screen_config jp ser cfg d = ?s2"
    by (simp add: set_screen_config_def Let_def split_beta)
  have frames: "map fst (tty_log (snd ?s2)) = map fst (tty_log d)
            @ [build_frame ''POST'' ''waterBlockScreenId'' ?c ''1'' (seq_number d + 1),
               build_frame ''POST'' ''waterBlockScreenId'' ?c ''1'' (seq_number d + 2)]"
    if conn: "0 \<le> fd d"
  proof -
    have p1: "?s1 = (fst ?s1, snd ?s1)" and p2: "?s2 = (fst ?s2, snd ?s2)"
      by simp_all
    note one = send_command_connected [OF conn p1]
    have "0 \<le> fd (snd ?s1)"
      using one(1) conn by simp
    note two = send_command_connected [OF this p2]
    show ?thesis
      by (simp add: two(4) one(2,4) add.assoc)
  qed
  have "?s2 = (None, d)" if "fd d < 0"
    using that by (simp add: send_command_disconnected)
  with eq frames show ?thesis
    by simp
qed

text \<open>
  One media file with the default modes, serialized by a stand-in for picojson's
  serializer: on an opened silent line, and before \<open>connect\<close>.
\<close>

theorem set_screen_config_sends_twice_witness:
  "(0::int) \<le> fd (opened silent_line)
   \<and> map fst (tty_log (snd (set_screen_config (\<lambda>s. None :: int json option) (\<lambda>j. ''{}'')
          \<lparr>media = [''a.mp4''], screen_mode = ''Full Screen'', ratio = ''2:1'',
            play_mode = ''Single''\<rparr>
          (opened silent_line))))
      = [build_frame ''POST'' ''waterBlockScreenId'' ''{}'' ''1'' 1,
         build_frame ''POST'' ''waterBlockScreenId'' ''{}'' ''1'' 2]
   \<and> fd (new_Device silent_line ''/dev/ttyACM0'' False) < 0
   \<and> set_screen_config (\<lambda>s. None :: int json option) (\<lambda>j. ''{}'')
          \<lparr>media = [''a.mp4''], screen_mode = ''Full Screen'', ratio = ''2:1'',
            play_mode = ''Single''\<rparr>
          (new_Device silent_line ''/dev/ttyACM0'' False)
      = (None, new_Device silent_line ''/dev/ttyACM0'' False)"
proof -
  let ?d = "opened silent_line"
  let ?n = "new_Device silent_line ''/dev/ttyACM0'' False"
  let ?jp = "\<lambda>s. None :: int json option"
  let ?ser = "\<lambda>j :: int json. ''{}''"
  let ?cfg = "\<lparr>media = [''a.mp4''], screen_mode = ''Full Screen'', ratio = ''2:1'',
            play_mode = ''Single''\<rparr>"
  have conn: "0 \<le> fd ?d" and off: "fd ?n < 0"
    by (simp_all add: opened_def new_Device_def)
  have fresh: "seq_number ?d = 0" "tty_log ?d = []"
    by (simp_all add: opened_def new_Device_def)
  have "0 \<le> fd ?d \<longrightarrow>
        map fst (tty_log (snd (set_screen_config ?jp ?ser ?cfg ?d)))
          = map fst (tty_log ?d)
            @ [build_frame ''POST'' ''waterBlockScreenId'' ''{}'' ''1'' (seq_number ?d + 1),
               build_frame ''POST'' ''waterBlockScreenId'' ''{}'' ''1'' (seq_number ?d + 2)]"
    using set_screen_config_sends_twice [of ?jp ?ser ?cfg ?d] by blast
  with conn have on: "map fst (tty_log (snd (set_screen_config ?jp ?ser ?cfg ?d)))
      = [build_frame ''POST'' ''waterBlockScreenId'' ''{}'' ''1'' 1,
         build_frame ''POST'' ''waterBlockScreenId'' ''{}'' ''1'' 2]"
    by (simp only: fresh) simp
  have "set_screen_config ?jp ?ser ?cfg ?n = (None, ?n)"
    using off set_screen_config_sends_twice [of ?jp ?ser ?cfg ?n] by blast
  with conn off on show ?thesis
    by blast
qed

section \<open>Discovery\<close>

lemma probe_None_iff: "probe jp w xs = None \<longleftrightarrow> (\<forall>q \<in> set xs. \<not> try_port jp w q)"
  by (induction xs) simp_all

lemma probe_Some_sorted:
  "sorted xs \<Longrightarrow>
     probe jp w xs = Some p \<longleftrightarrow>
       p \<in> set xs \<and> try_port jp w p \<and> (\<forall>q \<in> set xs. q < p \<longrightarrow> \<not> try_port jp w q)"
proof (induction xs)
  case Nil
  then show ?case by simp
next
  case (Cons x xs)
  then have le: "\<forall>y \<in> set xs. x \<le> y" and sorted: "sorted xs"
    by simp_all
  show ?case
  proof (cases "try_port jp w x")
    case True
    then show ?thesis
      using le by (auto simp: not_less)
  next
    case False
    then show ?thesis
      using Cons.IH [OF sorted] le by auto
  qed
qed

lemma try_port_unopened: "open_result w p < 0 \<Longrightarrow> \<not> try_port jp w p"
  by (simp add: try_port_def connect_def new_Device_def Let_def)

lemma try_port_silent:
  "line_of w p = silent_line \<Longrightarrow> \<not> try_port jp w p"
  by (simp add: try_port_def connect_def new_Device_def Let_def handshake_def send_command_def
      silent_line_def)

lemma try_port_answered:
  assumes "0 \<le> open_result w p" "tcgetattr_ok w p" "tcsetattr_ok w p"
    and "line_of w p = answering_line b" "b \<noteq> []" "jp b = Some j"
  shows "try_port jp w p
     \<longleftrightarrow> get_string j ''productId'' ''unknown'' \<noteq> []
         \<and> get_string j ''productId'' ''unknown'' \<noteq> ''unknown''"
proof -
  let ?d = "(new_Device (answering_line b) p False)\<lparr>fd := open_result w p\<rparr>"
  have conn: "connect w (new_Device (line_of w p) p False) = (True, ?d)"
    using assms by (simp add: connect_def new_Device_def Let_def)
  have "fst (send_command jp ''POST'' ''conn'' [] True ?d)
     = Some \<lparr>raw = message_body ''1'' ''OK'' b ''1'' 1, body = b,
             json = Some j, version = ''1'', status = ''OK''\<rparr>"
    using assms by (simp add: send_command_answered new_Device_def)
  then have "map_option product_id (fst (handshake jp ?d))
      = Some (get_string j ''productId'' ''unknown'')"
    by (cases "send_command jp ''POST'' ''conn'' [] True ?d")
      (auto simp: handshake_def Let_def split: json.splits)
  then show ?thesis
    unfolding try_port_def Let_def conn
    by (auto simp: split_beta split: option.splits)
qed

text \<open>
  C8: \<open>find_device\<close> returns a path exactly when that path is a candidate, passes the
  acceptance test of the probing loop (\<open>connect\<close> succeeds and \<open>handshake\<close> gives a
  product id that is neither empty nor \<open>unknown\<close>), and no candidate that sorts before it
  passes; it returns nothing exactly when no candidate passes, the empty candidate list
  included.
\<close>

theorem find_device_first_accepted:
  "(find_device jp w verb = Some p \<longleftrightarrow>
      p \<in> set (candidates w) \<and> try_port jp w p
      \<and> (\<forall>q \<in> set (candidates w). q < p \<longrightarrow> \<not> try_port jp w q))
   \<and> (find_device jp w verb = None \<longleftrightarrow> (\<forall>q \<in> set (candidates w). \<not> try_port jp w q))
   \<and> (try_port jp w x \<longleftrightarrow>
        fst (connect w (new_Device (line_of w x) x False))
        \<and> (\<exists>i. fst (handshake jp (snd (connect w (new_Device (line_of w x) x False)))) = Some i
               \<and> product_id i \<noteq> [] \<and> product_id i \<noteq> ''unknown''))"
proof -
  have fd: "find_device jp w verb = probe jp w (sort (candidates w))"
    by (simp add: find_device_def)
  have first: "(find_device jp w verb = Some p \<longleftrightarrow>
      p \<in> set (candidates w) \<and> try_port jp w p
      \<and> (\<forall>q \<in> set (candidates w). q < p \<longrightarrow> \<not> try_port jp w q))
   \<and> (find_device jp w verb = None \<longleftrightarrow> (\<forall>q \<in> set (candidates w). \<not> try_port jp w q))"
    unfolding fd
    using probe_Some_sorted [of "sort (candidates w)" jp w p]
      probe_None_iff [of jp w "sort (candidates w)"]
    by simp
  have test: "try_port jp w x \<longleftrightarrow>
        fst (connect w (new_Device (line_of w x) x False))
        \<and> (\<exists>i. fst (handshake jp (snd (connect w (new_Device (line_of w x) x False)))) = Some i
               \<and> product_id i \<noteq> [] \<and> product_id i \<noteq> ''unknown'')"
    by (auto simp: try_port_def Let_def split_beta split: option.splits)
  from first test show ?thesis
    by blast
qed

text \<open>
  Three ports, listed by the directory in the order 2, 0, 1: port 0 cannot be opened,
  port 1 never answers, port 2 answers with product id \<open>XR100\<close>, and \<open>find_device\<close>
  returns port 2, the third in sorted order.
\<close>

theorem find_device_first_accepted_witness:
  "candidates three_ports = [''/dev/ttyACM2'', ''/dev/ttyACM0'', ''/dev/ttyACM1'']
   \<and> sort (candidates three_ports) = [''/dev/ttyACM0'', ''/dev/ttyACM1'', ''/dev/ttyACM2'']
   \<and> \<not> try_port (stub_parse xr100_text (JObject [(''productId'', JString ''XR100'')] :: int json))
          three_ports ''/dev/ttyACM0''
   \<and> \<not> try_port (stub_parse xr100_text (JObject [(''productId'', JString ''XR100'')] :: int json))
          three_ports ''/dev/ttyACM1''
   \<and> try_port (stub_parse xr100_text (JObject [(''productId'', JString ''XR100'')] :: int json))
          three_ports ''/dev/ttyACM2''
   \<and> find_device (stub_parse xr100_text (JObject [(''productId'', JString ''XR100'')] :: int json))
          three_ports False = Some ''/dev/ttyACM2''"
proof -
  let ?jp = "stub_parse xr100_text (JObject [(''productId'', JString ''XR100'')] :: int json)"
  have c: "candidates three_ports = [''/dev/ttyACM2'', ''/dev/ttyACM0'', ''/dev/ttyACM1'']"
    by (simp add: candidates_def three_ports_def)
  have s: "sort (candidates three_ports) = [''/dev/ttyACM0'', ''/dev/ttyACM1'', ''/dev/ttyACM2'']"
    by (simp add: c)
  have p0: "\<not> try_port ?jp three_ports ''/dev/ttyACM0''"
    by (rule try_port_unopened) (simp add: three_ports_def)
  have p1: "\<not> try_port ?jp three_ports ''/dev/ttyACM1''"
    by (rule try_port_silent) (simp add: three_ports_def)
  have "xr100_text \<noteq> []"
    by (simp add: xr100_text_def)
  then have p2: "try_port ?jp three_ports ''/dev/ttyACM2''"
    by (subst try_port_answered [where b = xr100_text
          and j = "JObject [(''productId'', JString ''XR100'')]"])
      (simp_all add: three_ports_def stub_parse_def get_string_def)
  have "find_device ?jp three_ports False = Some ''/dev/ttyACM2''"
    using c p0 p1 p2 find_device_first_accepted [of ?jp three_ports False "''/dev/ttyACM2''"]
    by simp
  with c s p0 p1 p2 show ?thesis
    by simp
qed

end
